theory Spec2Isabelle
  imports Main
begin

section \<open>Python values shared by the examples\<close>

text \<open>
  The exceptions the modelled code can raise. A procedure that mutates its object is a
  function from the state before the call to a pair: the exception that left the call
  (\<open>None\<close> when it returned normally) and the state the call left behind, which is
  the partially updated one when the call raised. A method that only computes a value
  returns \<open>error + value\<close>. Console output (\<open>print\<close>) is not modelled.
\<close>

datatype error = AttributeError | IndexError | TypeError

type_synonym 's outcome = "error option \<times> 's"

text \<open>\<open>list.pop()\<close>: removes and returns the last item, \<open>IndexError\<close> on an empty list.\<close>

definition list_pop :: "'a list \<Rightarrow> error + ('a \<times> 'a list)" where
  "list_pop xs = (if xs = [] then Inl IndexError else Inr (last xs, butlast xs))"

text \<open>
  \<open>calls n f s\<close> calls the procedure \<open>f\<close> up to \<open>n\<close> times in a row, starting in
  \<open>s\<close>, and lists the state after each call that returned; it stops at the first call
  that raises. A result of length \<open>n\<close> therefore says that all \<open>n\<close> calls returned.
\<close>

fun calls :: "nat \<Rightarrow> ('s \<Rightarrow> 's outcome) \<Rightarrow> 's \<Rightarrow> 's list" where
  "calls 0 f s = []"
| "calls (Suc n) f s =
     (case f s of
        (None, s') \<Rightarrow> s' # calls n f s'
      | (Some e, s') \<Rightarrow> [])"

text \<open>
  \<open>run fs s\<close> calls the procedures \<open>fs\<close> one after the other, starting in \<open>s\<close>:
  the first exception ends the run and is its result, as in a Python script.
\<close>

fun run :: "('s \<Rightarrow> 's outcome) list \<Rightarrow> 's \<Rightarrow> 's outcome" where
  "run [] s = (None, s)"
| "run (f # fs) s =
     (case f s of
        (Some e, s') \<Rightarrow> (Some e, s')
      | (None, s') \<Rightarrow> run fs s')"

section \<open>Snapshot-based history: memento/ex001.py (and the same code in memento/ex002.py)\<close>

text \<open>
  \<open>Snapshot\<close>: the state it was built from and \<open>str(datetime.now())[:19]\<close>. The clock is
  an input of the model: \<open>now\<close> is the text \<open>str(datetime.now())\<close> at the call.
\<close>

record Snapshot =
  state :: string
  date :: string

definition Snapshot_init :: "string \<Rightarrow> string \<Rightarrow> Snapshot" where
  "Snapshot_init now s = \<lparr>state = s, date = take 19 now\<rparr>"

text \<open>The \<open>name\<close> property: \<open>f"{self.date} / ({self.state[0:9]}...)"\<close>. It cannot raise on a string state.\<close>

definition Snapshot_name :: "Snapshot \<Rightarrow> string" where
  "Snapshot_name m = date m @ '' / ('' @ take 9 (state m) @ ''...)''"

text \<open>
  \<open>Originator\<close>: the field \<open>_state\<close> (\<open>None\<close> is the class attribute's default, the value
  \<open>save\<close> guards against) and the list \<open>restored\<close>.
\<close>

record Originator =
  originator_state :: "string option"
  restored :: "Snapshot list"

definition Originator_init :: "string option \<Rightarrow> Originator" where
  "Originator_init s = \<lparr>originator_state = s, restored = []\<rparr>"

text \<open>
  \<open>do_something\<close> assigns \<open>_generate_random_string(5)\<close> to \<open>_state\<close>; the random text
  is an input of the model.
\<close>

definition do_something :: "string \<Rightarrow> Originator \<Rightarrow> Originator outcome" where
  "do_something rnd orig = (None, orig\<lparr>originator_state := Some rnd\<rparr>)"

definition Originator_save :: "string \<Rightarrow> Originator \<Rightarrow> error + Snapshot" where
  "Originator_save now orig =
     (case originator_state orig of
        None \<Rightarrow> Inl AttributeError
      | Some s \<Rightarrow> Inr (Snapshot_init now s))"

definition Originator_restore :: "Snapshot \<Rightarrow> Originator \<Rightarrow> Originator outcome" where
  "Originator_restore memento orig =
     (None, orig\<lparr>originator_state := Some (state memento),
                 restored := restored orig @ [memento]\<rparr>)"

text \<open>
  \<open>unrestore\<close> (ex001.py only), documented as "Unrestores the Originator's state to a
  memento object": its body is \<open>...\<close>, so it changes nothing, and nothing calls it.
\<close>

definition Originator_unrestore :: "Snapshot \<Rightarrow> Originator \<Rightarrow> Originator outcome" where
  "Originator_unrestore memento orig = (None, orig)"

text \<open>
  \<open>Caretaker\<close>: the list \<open>_history\<close> and the originator it was given. The caretaker and
  its client hold the same originator object, so the originator is a field of the
  caretaker's state and the client's calls on it go through \<open>on_originator\<close>.
\<close>

record Caretaker =
  caretaker_history :: "Snapshot list"
  originator :: Originator

definition Caretaker_init :: "Originator \<Rightarrow> Caretaker" where
  "Caretaker_init orig = \<lparr>caretaker_history = [], originator = orig\<rparr>"

definition on_originator :: "(Originator \<Rightarrow> Originator outcome) \<Rightarrow> Caretaker \<Rightarrow> Caretaker outcome" where
  "on_originator f c = (case f (originator c) of (r, orig') \<Rightarrow> (r, c\<lparr>originator := orig'\<rparr>))"

text \<open>\<open>backup\<close> has no handler: what \<open>save\<close> raises leaves the call, before anything is stored.\<close>

definition Caretaker_backup :: "string \<Rightarrow> Caretaker \<Rightarrow> Caretaker outcome" where
  "Caretaker_backup now c =
     (case Originator_save now (originator c) of
        Inl e \<Rightarrow> (Some e, c)
      | Inr m \<Rightarrow> (None, c\<lparr>caretaker_history := caretaker_history c @ [m]\<rparr>))"

text \<open>
  \<open>undo\<close>. The caretaker calls \<open>self._originator.restore(memento)\<close> on whatever object it
  was given, so the body is written over the originator's \<open>restore\<close> method, passed as
  \<open>rst\<close>; \<open>Caretaker_undo\<close> is the instance for the class \<open>Originator\<close> above.
  \<open>undo_try\<close> is the body of the \<open>try\<close> block: the pop, then the call of \<open>restore\<close>.
  The handler \<open>except Exception: print('Cannot undo')\<close> ends every exception there
  (the exceptions of the model are all of class \<open>Exception\<close>).
\<close>

definition undo_try :: "(Snapshot \<Rightarrow> Originator \<Rightarrow> Originator outcome) \<Rightarrow> Caretaker \<Rightarrow> Caretaker outcome" where
  "undo_try rst c =
     (case list_pop (caretaker_history c) of
        Inl e \<Rightarrow> (Some e, c)
      | Inr (memento, h) \<Rightarrow>
          on_originator (rst memento) (c\<lparr>caretaker_history := h\<rparr>))"

definition Caretaker_undo_with :: "(Snapshot \<Rightarrow> Originator \<Rightarrow> Originator outcome) \<Rightarrow> Caretaker \<Rightarrow> Caretaker outcome" where
  "Caretaker_undo_with rst c =
     (if length (caretaker_history c) = 0 then (None, c)
      else (case undo_try rst c of
              (Some e, c') \<Rightarrow> (None, c')
            | (None, c') \<Rightarrow> (None, c')))"

definition Caretaker_undo :: "Caretaker \<Rightarrow> Caretaker outcome" where
  "Caretaker_undo c = Caretaker_undo_with Originator_restore c"

text \<open>
  A \<open>restore\<close> method that raises \<open>e\<close> before it assigns anything, as the method of an
  originator of another class may: the case the handler of \<open>undo\<close> is there for.
\<close>

definition raising_restore :: "error \<Rightarrow> Snapshot \<Rightarrow> Originator \<Rightarrow> Originator outcome" where
  "raising_restore e memento orig = (Some e, orig)"

text \<open>
  \<open>redo\<close>: the whole body is the \<open>try\<close> block. \<open>self._originator.restored.pop()\<close> raises
  \<open>IndexError\<close> on an empty list, which the handler ends (\<open>print('Cannot redo')\<close>);
  otherwise the popped snapshot is appended to \<open>_history\<close>. No statement of \<open>redo\<close>
  assigns \<open>_state\<close>.
\<close>

definition redo_try :: "Caretaker \<Rightarrow> Caretaker outcome" where
  "redo_try c =
     (case list_pop (restored (originator c)) of
        Inl e \<Rightarrow> (Some e, c)
      | Inr (memento, r) \<Rightarrow>
          (None, c\<lparr>originator := (originator c)\<lparr>restored := r\<rparr>,
                    caretaker_history := caretaker_history c @ [memento]\<rparr>))"

definition Caretaker_redo :: "Caretaker \<Rightarrow> Caretaker outcome" where
  "Caretaker_redo c =
     (case redo_try c of
        (Some e, c') \<Rightarrow> (None, c')
      | (None, c') \<Rightarrow> (None, c'))"

text \<open>
  One recorded mutation, as the client's loop does it: \<open>caretaker.backup()\<close>, then
  \<open>originator.do_something()\<close>. A mutation is the pair of the clock's text at the backup
  and the new state. \<open>record_all\<close> records a list of mutations, one after the other.
\<close>

definition record_mutation :: "string \<times> string \<Rightarrow> Caretaker \<Rightarrow> Caretaker outcome" where
  "record_mutation m c =
     (case Caretaker_backup (fst m) c of
        (Some e, c') \<Rightarrow> (Some e, c')
      | (None, c') \<Rightarrow> on_originator (do_something (snd m)) c')"

definition record_all :: "(string \<times> string) list \<Rightarrow> Caretaker \<Rightarrow> Caretaker outcome" where
  "record_all ms c = run (map record_mutation ms) c"

section \<open>Command-based history: command/ex003.py\<close>

text \<open>
  \<open>str.replace(old, new)\<close>: every occurrence of \<open>old\<close> is replaced, found from the
  left and not overlapping; an empty \<open>old\<close> matches before every character and at the end.
\<close>

function str_replace :: "string \<Rightarrow> string \<Rightarrow> string \<Rightarrow> string" where
  "str_replace old new [] = (if old = [] then new else [])"
| "str_replace old new (c # cs) =
     (if old = [] then new @ concat (map (\<lambda>x. x # new) (c # cs))
      else if take (length old) (c # cs) = old
           then new @ str_replace old new (drop (length old) (c # cs))
      else c # str_replace old new cs)"
  by pat_completeness auto
termination
  by (relation "measure (\<lambda>(old, new, s). length s)") auto

text \<open>
  \<open>Editor\<close>: the field \<open>text\<close>. A Python variable can hold \<open>None\<close>, and \<open>Command.undo\<close>
  assigns a command's \<open>backup\<close>, which starts as \<open>None\<close>, to it; so the field is an
  option, and the two methods that compute with it raise on \<open>None\<close> as Python does
  (\<open>None.replace\<close>: \<open>AttributeError\<close>; \<open>None += str\<close>: \<open>TypeError\<close>).
\<close>

record Editor =
  editor_text :: "string option"

definition Editor_init :: Editor where
  "Editor_init = \<lparr>editor_text = Some ''''\<rparr>"

definition get_selection :: "Editor \<Rightarrow> string" where
  "get_selection ed = ''selected text''"

definition delete_selection :: "Editor \<Rightarrow> Editor outcome" where
  "delete_selection ed =
     (case editor_text ed of
        None \<Rightarrow> (Some AttributeError, ed)
      | Some t \<Rightarrow> (None, ed\<lparr>editor_text := Some (str_replace ''selected text'' '''' t)\<rparr>))"

definition replace_selection :: "string \<Rightarrow> Editor \<Rightarrow> Editor outcome" where
  "replace_selection s ed =
     (case editor_text ed of
        None \<Rightarrow> (Some TypeError, ed)
      | Some t \<Rightarrow> (None, ed\<lparr>editor_text := Some (t @ s)\<rparr>))"

text \<open>
  A command object: its class and its field \<open>backup\<close>. Its fields \<open>app\<close> and \<open>editor\<close>
  are the application and the application's \<open>active_editor\<close> (the only way the code
  builds a command), so they are not stored.
\<close>

datatype CommandClass = CopyCommand | CutCommand | PasteCommand | UndoCommand

record Command =
  cls :: CommandClass
  backup :: "string option"

definition Command_init :: "CommandClass \<Rightarrow> Command" where
  "Command_init k = \<lparr>cls = k, backup = None\<rparr>"

text \<open>
  \<open>Application\<close>. The history stores references to command objects, and a command
  object can be handed to \<open>execute_command\<close> more than once, so command objects live in a
  store: \<open>objects\<close> lists the command objects created so far, and a reference is an index
  into it. An index outside the store plays the role of the reference \<open>None\<close>.
  \<open>history\<close> is the list inside the \<open>CommandHistory\<close>; \<open>editors\<close> holds the one
  editor that \<open>active_editor\<close> names.
\<close>

record Application =
  clipboard :: string
  active_editor :: Editor
  history :: "nat list"
  objects :: "Command list"

definition Application_init :: Application where
  "Application_init = \<lparr>clipboard = '''', active_editor = Editor_init, history = [], objects = []\<rparr>"

definition deref :: "Application \<Rightarrow> nat \<Rightarrow> Command option" where
  "deref app a = (if a < length (objects app) then Some (objects app ! a) else None)"

definition new_command :: "CommandClass \<Rightarrow> Application \<Rightarrow> nat \<times> Application" where
  "new_command k app = (length (objects app), app\<lparr>objects := objects app @ [Command_init k]\<rparr>)"

definition on_editor :: "(Editor \<Rightarrow> Editor outcome) \<Rightarrow> Application \<Rightarrow> Application outcome" where
  "on_editor f app = (case f (active_editor app) of (r, ed) \<Rightarrow> (r, app\<lparr>active_editor := ed\<rparr>))"

definition CommandHistory_push :: "nat \<Rightarrow> nat list \<Rightarrow> nat list" where
  "CommandHistory_push command h = h @ [command]"

definition CommandHistory_pop :: "nat list \<Rightarrow> nat option \<times> nat list" where
  "CommandHistory_pop h = (if h \<noteq> [] then (Some (last h), butlast h) else (None, h))"

text \<open>\<open>Command.save_backup\<close> and \<open>Command.undo\<close>, on the command object at address \<open>a\<close>.\<close>

definition Command_save_backup :: "nat \<Rightarrow> Application \<Rightarrow> Application" where
  "Command_save_backup a app =
     app\<lparr>objects := (objects app)[a := (objects app ! a)\<lparr>backup := editor_text (active_editor app)\<rparr>]\<rparr>"

definition Command_undo :: "nat \<Rightarrow> Application \<Rightarrow> Application outcome" where
  "Command_undo a app =
     (None, app\<lparr>active_editor := (active_editor app)\<lparr>editor_text := backup (objects app ! a)\<rparr>\<rparr>)"

text \<open>\<open>Application.undo\<close>: pop the most recent command, and call its \<open>undo\<close> unless it is \<open>None\<close>.\<close>

definition Application_undo :: "Application \<Rightarrow> Application outcome" where
  "Application_undo app =
     (case CommandHistory_pop (history app) of
        (command, h) \<Rightarrow>
          (let app1 = app\<lparr>history := h\<rparr> in
           case command of
             None \<Rightarrow> (None, app1)
           | Some a \<Rightarrow> (case deref app1 a of
                         None \<Rightarrow> (None, app1)
                       | Some obj \<Rightarrow> Command_undo a app1)))"

text \<open>The \<open>execute\<close> method of each concrete class: what it returns, or raises, and the state it leaves.\<close>

definition CopyCommand_execute :: "nat \<Rightarrow> Application \<Rightarrow> (error + bool) \<times> Application" where
  "CopyCommand_execute a app = (Inr False, app\<lparr>clipboard := get_selection (active_editor app)\<rparr>)"

definition CutCommand_execute :: "nat \<Rightarrow> Application \<Rightarrow> (error + bool) \<times> Application" where
  "CutCommand_execute a app =
     (let app1 = Command_save_backup a app;
          app2 = app1\<lparr>clipboard := get_selection (active_editor app1)\<rparr>
      in case on_editor delete_selection app2 of
           (Some e, app3) \<Rightarrow> (Inl e, app3)
         | (None, app3) \<Rightarrow> (Inr True, app3))"

definition PasteCommand_execute :: "nat \<Rightarrow> Application \<Rightarrow> (error + bool) \<times> Application" where
  "PasteCommand_execute a app =
     (let app1 = Command_save_backup a app
      in case on_editor (replace_selection (clipboard app1)) app1 of
           (Some e, app2) \<Rightarrow> (Inl e, app2)
         | (None, app2) \<Rightarrow> (Inr True, app2))"

definition UndoCommand_execute :: "nat \<Rightarrow> Application \<Rightarrow> (error + bool) \<times> Application" where
  "UndoCommand_execute a app =
     (case Application_undo app of
        (Some e, app1) \<Rightarrow> (Inl e, app1)
      | (None, app1) \<Rightarrow> (Inr False, app1))"

text \<open>\<open>command.execute()\<close>: the method of the object's class; \<open>None\<close> has no such attribute.\<close>

definition Command_execute :: "nat \<Rightarrow> Application \<Rightarrow> (error + bool) \<times> Application" where
  "Command_execute a app =
     (case deref app a of
        None \<Rightarrow> (Inl AttributeError, app)
      | Some obj \<Rightarrow>
          (case cls obj of
             CopyCommand \<Rightarrow> CopyCommand_execute a app
           | CutCommand \<Rightarrow> CutCommand_execute a app
           | PasteCommand \<Rightarrow> PasteCommand_execute a app
           | UndoCommand \<Rightarrow> UndoCommand_execute a app))"

definition Application_execute_command :: "nat \<Rightarrow> Application \<Rightarrow> Application outcome" where
  "Application_execute_command command app =
     (case Command_execute command app of
        (Inl e, app1) \<Rightarrow> (Some e, app1)
      | (Inr b, app1) \<Rightarrow>
          (if b then (None, app1\<lparr>history := CommandHistory_push command (history app1)\<rparr>)
           else (None, app1)))"

text \<open>
  The four callbacks of \<open>create_ui\<close>: each builds a new command object of its class and
  passes it to \<open>execute_command\<close>. \<open>create_ui\<close> then presses copy, cut, paste and undo;
  \<open>press_all\<close> presses a list of buttons, one after the other.
\<close>

definition button :: "CommandClass \<Rightarrow> Application \<Rightarrow> Application outcome" where
  "button k app = (case new_command k app of (a, app1) \<Rightarrow> Application_execute_command a app1)"

definition press_all :: "CommandClass list \<Rightarrow> Application \<Rightarrow> Application outcome" where
  "press_all ks app = run (map button ks) app"

definition create_ui :: "Application \<Rightarrow> Application outcome" where
  "create_ui app = press_all [CopyCommand, CutCommand, PasteCommand, UndoCommand] app"

text \<open>\<open>texts_before ks app\<close>: the editor's text just before each press of \<open>press_all ks app\<close>.\<close>

fun texts_before :: "CommandClass list \<Rightarrow> Application \<Rightarrow> string option list" where
  "texts_before [] app = []"
| "texts_before (k # ks) app =
     editor_text (active_editor app) #
       (case button k app of
          (Some e, app1) \<Rightarrow> []
        | (None, app1) \<Rightarrow> texts_before ks app1)"

text \<open>
  The states an application can be in: a fresh one, and the state left by creating a
  command object of any class, by \<open>execute_command\<close> on any reference, or by \<open>undo\<close>,
  whether or not the call raised.
\<close>

inductive reachable :: "Application \<Rightarrow> bool" where
  fresh: "reachable Application_init"
| created: "reachable app \<Longrightarrow> reachable (snd (new_command k app))"
| executed: "reachable app \<Longrightarrow> reachable (snd (Application_execute_command a app))"
| undone: "reachable app \<Longrightarrow> reachable (snd (Application_undo app))"

text \<open>
  The invariant of the command history: the editor's text is a string, and every
  reference on the history is an object of the store, of class \<open>CutCommand\<close> or
  \<open>PasteCommand\<close>, whose \<open>backup\<close> is a string.
\<close>

definition backed_up :: "Application \<Rightarrow> bool" where
  "backed_up app \<longleftrightarrow>
     editor_text (active_editor app) \<noteq> None \<and>
     (\<forall>a \<in> set (history app). a < length (objects app) \<and>
        backup (objects app ! a) \<noteq> None \<and>
        (cls (objects app ! a) = CutCommand \<or> cls (objects app ! a) = PasteCommand))"

section \<open>Lemmas about the snapshot-based and the command-based history\<close>

lemma Caretaker_undo_empty:
  "caretaker_history c = [] \<Longrightarrow> Caretaker_undo c = (None, c)"
  by (simp add: Caretaker_undo_def Caretaker_undo_with_def)

lemma Caretaker_undo_nonempty:
  "caretaker_history c \<noteq> [] \<Longrightarrow>
   Caretaker_undo c =
     (None, c\<lparr>caretaker_history := butlast (caretaker_history c),
               originator := (originator c)
                 \<lparr>originator_state := Some (state (last (caretaker_history c))),
                  restored := restored (originator c) @ [last (caretaker_history c)]\<rparr>\<rparr>)"
  by (simp add: Caretaker_undo_def Caretaker_undo_with_def undo_try_def list_pop_def
      on_originator_def Originator_restore_def)

lemma Caretaker_redo_empty:
  "restored (originator c) = [] \<Longrightarrow> Caretaker_redo c = (None, c)"
  by (simp add: Caretaker_redo_def redo_try_def list_pop_def)

lemma Caretaker_redo_nonempty:
  "restored (originator c) \<noteq> [] \<Longrightarrow>
   Caretaker_redo c =
     (None, c\<lparr>originator := (originator c)\<lparr>restored := butlast (restored (originator c))\<rparr>,
               caretaker_history := caretaker_history c @ [last (restored (originator c))]\<rparr>)"
  by (simp add: Caretaker_redo_def redo_try_def list_pop_def)

lemma record_mutation_Some:
  "originator_state (originator c) = Some s \<Longrightarrow>
   record_mutation m c =
     (None, c\<lparr>caretaker_history := caretaker_history c @ [Snapshot_init (fst m) s],
               originator := (originator c)\<lparr>originator_state := Some (snd m)\<rparr>\<rparr>)"
  by (simp add: record_mutation_def Caretaker_backup_def Originator_save_def on_originator_def
      do_something_def)

lemma calls_replicate:
  "f s = (None, s) \<Longrightarrow> calls n f s = replicate n s"
  by (induction n) simp_all

lemma record_all_states:
  "originator_state (originator c) = Some s0 \<Longrightarrow>
   fst (record_all ms c) = None \<and>
   map state (caretaker_history (snd (record_all ms c))) =
     map state (caretaker_history c) @ butlast (s0 # map snd ms) \<and>
   originator_state (originator (snd (record_all ms c))) = Some (last (s0 # map snd ms))"
proof (induction ms arbitrary: c s0)
  case Nil
  then show ?case by (simp add: record_all_def)
next
  case (Cons m ms)
  let ?c1 = "c\<lparr>caretaker_history := caretaker_history c @ [Snapshot_init (fst m) s0],
               originator := (originator c)\<lparr>originator_state := Some (snd m)\<rparr>\<rparr>"
  have step: "record_mutation m c = (None, ?c1)"
    using Cons.prems by (rule record_mutation_Some)
  have unfold: "record_all (m # ms) c = record_all ms ?c1"
    by (simp add: record_all_def step)
  have "originator_state (originator ?c1) = Some (snd m)" by simp
  from Cons.IH [OF this] show ?case
    by (simp add: unfold Snapshot_init_def)
qed

lemma calls_undo_states:
  "n \<le> length (caretaker_history c) \<Longrightarrow>
   map (\<lambda>c'. originator_state (originator c')) (calls n Caretaker_undo c) =
     map (\<lambda>m. Some (state m)) (take n (rev (caretaker_history c)))"
proof (induction n arbitrary: c)
  case 0
  then show ?case by simp
next
  case (Suc n)
  then have ne: "caretaker_history c \<noteq> []" by auto
  let ?c1 = "c\<lparr>caretaker_history := butlast (caretaker_history c),
               originator := (originator c)
                 \<lparr>originator_state := Some (state (last (caretaker_history c))),
                  restored := restored (originator c) @ [last (caretaker_history c)]\<rparr>\<rparr>"
  have step: "Caretaker_undo c = (None, ?c1)"
    using ne by (rule Caretaker_undo_nonempty)
  have len: "n \<le> length (caretaker_history ?c1)" using Suc.prems by simp
  have rv: "rev (caretaker_history c) = last (caretaker_history c) # rev (butlast (caretaker_history c))"
    using ne by (metis append_butlast_last_id rev_eq_Cons_iff rev_rev_ident)
  show ?case
    using Suc.IH [OF len] by (simp add: step rv)
qed


lemma Application_undo_empty:
  "history app = [] \<Longrightarrow> Application_undo app = (None, app)"
  by (simp add: Application_undo_def CommandHistory_pop_def)

lemma Application_undo_nonempty:
  "history app \<noteq> [] \<Longrightarrow> last (history app) < length (objects app) \<Longrightarrow>
   Application_undo app =
     (None, app\<lparr>history := butlast (history app),
                 active_editor := (active_editor app)
                   \<lparr>editor_text := backup (objects app ! last (history app))\<rparr>\<rparr>)"
  by (simp add: Application_undo_def CommandHistory_pop_def deref_def Command_undo_def)

lemma button_mutating:
  assumes "k = CutCommand \<or> k = PasteCommand" and "editor_text (active_editor app) = Some t"
  shows "\<exists>t'. button k app =
     (None, app\<lparr>objects := objects app @ [\<lparr>cls = k, backup = Some t\<rparr>],
                 clipboard := (if k = CutCommand then ''selected text'' else clipboard app),
                 active_editor := (active_editor app)\<lparr>editor_text := Some t'\<rparr>,
                 history := history app @ [length (objects app)]\<rparr>)"
  using assms
  by (auto simp: button_def new_command_def Application_execute_command_def Command_execute_def
      deref_def Command_init_def CutCommand_execute_def PasteCommand_execute_def
      Command_save_backup_def on_editor_def delete_selection_def replace_selection_def
      get_selection_def CommandHistory_push_def Let_def)

lemma press_all_mutating:
  assumes "\<forall>k \<in> set ks. k = CutCommand \<or> k = PasteCommand"
    and "editor_text (active_editor app) = Some t"
  shows "fst (press_all ks app) = None \<and>
    (\<exists>addrs. history (snd (press_all ks app)) = history app @ addrs \<and>
       length addrs = length ks \<and>
       (\<forall>a \<in> set addrs. a < length (objects (snd (press_all ks app)))) \<and>
       map (\<lambda>a. backup (objects (snd (press_all ks app)) ! a)) addrs = texts_before ks app) \<and>
    (\<exists>new. objects (snd (press_all ks app)) = objects app @ new)"
  using assms
proof (induction ks arbitrary: app t)
  case Nil
  then show ?case by (simp add: press_all_def)
next
  case (Cons k ks)
  then have k: "k = CutCommand \<or> k = PasteCommand" by simp
  from button_mutating [OF k Cons.prems(2)] obtain t' where
    step: "button k app =
     (None, app\<lparr>objects := objects app @ [\<lparr>cls = k, backup = Some t\<rparr>],
                 clipboard := (if k = CutCommand then ''selected text'' else clipboard app),
                 active_editor := (active_editor app)\<lparr>editor_text := Some t'\<rparr>,
                 history := history app @ [length (objects app)]\<rparr>)" (is "_ = (None, ?app1)")
    by blast
  have unfold: "press_all (k # ks) app = press_all ks ?app1"
    by (simp add: press_all_def step)
  have before: "texts_before (k # ks) app = Some t # texts_before ks ?app1"
    by (simp add: step Cons.prems(2))
  have ks: "\<forall>k \<in> set ks. k = CutCommand \<or> k = PasteCommand" using Cons.prems(1) by simp
  have t1: "editor_text (active_editor ?app1) = Some t'" by simp
  let ?app' = "snd (press_all ks ?app1)"
  from Cons.IH [OF ks t1] obtain addrs new where
    ok: "fst (press_all ks ?app1) = None"
    and hist: "history ?app' = history ?app1 @ addrs"
    and len: "length addrs = length ks"
    and valid: "\<forall>a \<in> set addrs. a < length (objects ?app')"
    and backups: "map (\<lambda>a. backup (objects ?app' ! a)) addrs = texts_before ks ?app1"
    and objs: "objects ?app' = objects ?app1 @ new"
    by blast
  have objs': "objects ?app' = objects app @ (\<lparr>cls = k, backup = Some t\<rparr> # new)"
    using objs by simp
  have first: "backup (objects ?app' ! length (objects app)) = Some t"
    by (simp add: objs')
  have hist': "history ?app' = history app @ (length (objects app) # addrs)"
    using hist by simp
  have "length (length (objects app) # addrs) = length (k # ks)" using len by simp
  moreover have "\<forall>a \<in> set (length (objects app) # addrs). a < length (objects ?app')"
    using valid by (simp add: objs')
  moreover have "map (\<lambda>a. backup (objects ?app' ! a)) (length (objects app) # addrs) =
      texts_before (k # ks) app"
    using backups first by (simp only: before list.map)
  ultimately have "\<exists>addrs. history ?app' = history app @ addrs \<and>
       length addrs = length (k # ks) \<and>
       (\<forall>a \<in> set addrs. a < length (objects ?app')) \<and>
       map (\<lambda>a. backup (objects ?app' ! a)) addrs = texts_before (k # ks) app"
    using hist' by blast
  moreover have "\<exists>new. objects ?app' = objects app @ new" using objs' by blast
  ultimately show ?case
    unfolding unfold using ok by blast
qed

lemma calls_Application_undo_texts:
  "n \<le> length (history app) \<Longrightarrow>
   \<forall>a \<in> set (take n (rev (history app))). a < length (objects app) \<Longrightarrow>
   map (\<lambda>app'. editor_text (active_editor app')) (calls n Application_undo app) =
     map (\<lambda>a. backup (objects app ! a)) (take n (rev (history app)))"
proof (induction n arbitrary: app)
  case 0
  then show ?case by simp
next
  case (Suc n)
  then have ne: "history app \<noteq> []" by auto
  have rv: "rev (history app) = last (history app) # rev (butlast (history app))"
    using ne by (metis append_butlast_last_id rev_eq_Cons_iff rev_rev_ident)
  have valid: "last (history app) < length (objects app)"
    using Suc.prems(2) by (simp add: rv)
  let ?app1 = "app\<lparr>history := butlast (history app),
                 active_editor := (active_editor app)
                   \<lparr>editor_text := backup (objects app ! last (history app))\<rparr>\<rparr>"
  have step: "Application_undo app = (None, ?app1)"
    using ne valid by (rule Application_undo_nonempty)
  have len: "n \<le> length (history ?app1)" using Suc.prems(1) by simp
  have rest: "\<forall>a \<in> set (take n (rev (history ?app1))). a < length (objects ?app1)"
    using Suc.prems(2) by (simp add: rv)
  show ?case
    using Suc.IH [OF len rest] by (simp add: step rv)
qed


lemma undo_all_presses:
  assumes "\<forall>k \<in> set ks. k = CutCommand \<or> k = PasteCommand"
    and "editor_text (active_editor app) = Some t"
  shows "map (\<lambda>app'. editor_text (active_editor app'))
           (calls (length ks) Application_undo (snd (press_all ks app))) =
         rev (texts_before ks app)"
proof -
  let ?app' = "snd (press_all ks app)"
  from press_all_mutating [OF assms] obtain addrs where
    hist: "history ?app' = history app @ addrs"
    and len: "length addrs = length ks"
    and valid: "\<forall>a \<in> set addrs. a < length (objects ?app')"
    and backups: "map (\<lambda>a. backup (objects ?app' ! a)) addrs = texts_before ks app"
    by blast
  have tk: "take (length ks) (rev (history ?app')) = rev addrs"
    by (simp add: hist len)
  have le: "length ks \<le> length (history ?app')" by (simp add: hist len)
  have v: "\<forall>a \<in> set (take (length ks) (rev (history ?app'))). a < length (objects ?app')"
    using valid by (simp add: tk)
  have "map (\<lambda>app'. editor_text (active_editor app'))
           (calls (length ks) Application_undo ?app') =
        map (\<lambda>a. backup (objects ?app' ! a)) (rev addrs)"
    using calls_Application_undo_texts [OF le v] by (simp only: tk)
  also have "\<dots> = rev (texts_before ks app)"
    unfolding rev_map [symmetric] backups ..
  finally show ?thesis .
qed


lemma backed_up_init: "backed_up Application_init"
  by (simp add: backed_up_def Application_init_def Editor_init_def)

lemma backed_up_new_command: "backed_up app \<Longrightarrow> backed_up (snd (new_command k app))"
  by (auto simp: backed_up_def new_command_def nth_append)

lemma backed_up_undo:
  "backed_up app \<Longrightarrow> fst (Application_undo app) = None \<and> backed_up (snd (Application_undo app))"
  by (auto simp: backed_up_def Application_undo_def CommandHistory_pop_def deref_def
      Command_undo_def Let_def dest: in_set_butlastD split: option.splits)

lemma backed_up_execute_command:
  assumes "backed_up app"
  shows "backed_up (snd (Application_execute_command a app))"
proof (cases "deref app a")
  case None
  then show ?thesis using assms
    by (simp add: Application_execute_command_def Command_execute_def)
next
  case (Some obj)
  then have a: "a < length (objects app)" and obj: "obj = objects app ! a"
    by (auto simp: deref_def split: if_splits)
  from assms obtain t where t: "editor_text (active_editor app) = Some t"
    by (auto simp: backed_up_def)
  show ?thesis
  proof (cases "cls obj")
    case CopyCommand
    then show ?thesis using assms Some
      by (simp add: Application_execute_command_def Command_execute_def CopyCommand_execute_def
          backed_up_def)
  next
    case CutCommand
    then show ?thesis using assms Some a obj t
      by (auto simp: Application_execute_command_def Command_execute_def CutCommand_execute_def
          backed_up_def Command_save_backup_def on_editor_def delete_selection_def
          CommandHistory_push_def Let_def nth_list_update)
  next
    case PasteCommand
    then show ?thesis using assms Some a obj t
      by (auto simp: Application_execute_command_def Command_execute_def PasteCommand_execute_def
          backed_up_def Command_save_backup_def on_editor_def replace_selection_def
          CommandHistory_push_def Let_def nth_list_update)
  next
    case UndoCommand
    from backed_up_undo [OF assms] obtain app1 where
      "Application_undo app = (None, app1)" "backed_up app1"
      by (cases "Application_undo app") auto
    then show ?thesis using Some UndoCommand
      by (simp add: Application_execute_command_def Command_execute_def UndoCommand_execute_def)
  qed
qed

lemma reachable_backed_up: "reachable app \<Longrightarrow> backed_up app"
proof (induction rule: reachable.induct)
  case fresh
  show ?case by (rule backed_up_init)
next
  case (created app k)
  then show ?case by (simp add: backed_up_new_command)
next
  case (executed app a)
  then show ?case by (simp add: backed_up_execute_command)
next
  case (undone app)
  then show ?case by (simp add: backed_up_undo)
qed

lemma Command_execute_Copy:
  "deref app a = Some obj \<Longrightarrow> cls obj = CopyCommand \<Longrightarrow>
   Command_execute a app = (Inr False, app\<lparr>clipboard := ''selected text''\<rparr>)"
  by (simp add: Command_execute_def CopyCommand_execute_def get_selection_def)

lemma Application_undo_returns:
  "fst (Application_undo app) = None \<and>
   history (snd (Application_undo app)) = butlast (history app)"
  by (simp add: Application_undo_def CommandHistory_pop_def Command_undo_def Let_def
      split: option.splits)

lemma Command_execute_Undo:
  "deref app a = Some obj \<Longrightarrow> cls obj = UndoCommand \<Longrightarrow>
   Command_execute a app = (Inr False, snd (Application_undo app))"
  using Application_undo_returns [of app]
  by (cases "Application_undo app") (simp add: Command_execute_def UndoCommand_execute_def)

lemma Command_execute_Cut:
  "deref app a = Some obj \<Longrightarrow> cls obj = CutCommand \<Longrightarrow>
   editor_text (active_editor app) = Some t \<Longrightarrow>
   Command_execute a app =
     (Inr True, app\<lparr>objects := (objects app)[a := obj\<lparr>backup := Some t\<rparr>],
                    clipboard := ''selected text'',
                    active_editor := (active_editor app)
                      \<lparr>editor_text := Some (str_replace ''selected text'' '''' t)\<rparr>\<rparr>)"
  by (auto simp: Command_execute_def CutCommand_execute_def Command_save_backup_def
      on_editor_def delete_selection_def get_selection_def deref_def Let_def split: if_splits)

lemma Command_execute_Paste:
  "deref app a = Some obj \<Longrightarrow> cls obj = PasteCommand \<Longrightarrow>
   editor_text (active_editor app) = Some t \<Longrightarrow>
   Command_execute a app =
     (Inr True, app\<lparr>objects := (objects app)[a := obj\<lparr>backup := Some t\<rparr>],
                    active_editor := (active_editor app)
                      \<lparr>editor_text := Some (t @ clipboard app)\<rparr>\<rparr>)"
  by (auto simp: Command_execute_def PasteCommand_execute_def Command_save_backup_def
      on_editor_def replace_selection_def deref_def Let_def split: if_splits)

lemma Command_execute_no_text:
  "deref app a = Some obj \<Longrightarrow> cls obj = CutCommand \<or> cls obj = PasteCommand \<Longrightarrow>
   editor_text (active_editor app) = None \<Longrightarrow>
   active_editor (snd (Command_execute a app)) = active_editor app \<and>
   (\<exists>e. fst (Command_execute a app) = Inl e)"
  by (auto simp: Command_execute_def CutCommand_execute_def PasteCommand_execute_def
      Command_save_backup_def on_editor_def delete_selection_def replace_selection_def
      get_selection_def Let_def)

lemma reachable_button: "reachable app \<Longrightarrow> reachable (snd (button k app))"
proof -
  assume r: "reachable app"
  have "button k app =
      Application_execute_command (length (objects app)) (snd (new_command k app))"
    by (simp add: button_def new_command_def)
  then show ?thesis
    using reachable.executed [OF reachable.created [OF r, of k], of "length (objects app)"]
    by simp
qed

lemma reachable_press_all: "reachable app \<Longrightarrow> reachable (snd (press_all ks app))"
proof (induction ks arbitrary: app)
  case Nil
  then show ?case by (simp add: press_all_def)
next
  case (Cons k ks)
  obtain r app1 where step: "button k app = (r, app1)" by (cases "button k app")
  have r1: "reachable app1" using reachable_button [OF Cons.prems, of k] step by simp
  show ?case
  proof (cases r)
    case None
    then have "press_all (k # ks) app = press_all ks app1"
      by (simp add: press_all_def step)
    then show ?thesis using Cons.IH [OF r1] by simp
  next
    case (Some e)
    then have "press_all (k # ks) app = (Some e, app1)"
      by (simp add: press_all_def step)
    then show ?thesis using r1 by simp
  qed
qed

lemma create_ui_fresh:
  "create_ui Application_init =
   (None, \<lparr>clipboard = ''selected text'', active_editor = \<lparr>editor_text = Some ''''\<rparr>,
           history = [1],
           objects = [\<lparr>cls = CopyCommand, backup = None\<rparr>,
                      \<lparr>cls = CutCommand, backup = Some ''''\<rparr>,
                      \<lparr>cls = PasteCommand, backup = Some ''''\<rparr>,
                      \<lparr>cls = UndoCommand, backup = None\<rparr>]\<rparr>)"
  by (simp add: create_ui_def press_all_def button_def new_command_def Application_init_def
      Editor_init_def Command_init_def Application_execute_command_def Command_execute_def
      deref_def CopyCommand_execute_def CutCommand_execute_def PasteCommand_execute_def
      UndoCommand_execute_def Command_save_backup_def on_editor_def delete_selection_def
      replace_selection_def get_selection_def CommandHistory_push_def Application_undo_def
      CommandHistory_pop_def Command_undo_def)

lemma texts_before_length:
  assumes "\<forall>k \<in> set ks. k = CutCommand \<or> k = PasteCommand"
    and "editor_text (active_editor app) = Some t"
  shows "length (texts_before ks app) = length ks"
proof -
  from press_all_mutating [OF assms] obtain addrs where
    "length addrs = length ks"
    "map (\<lambda>a. backup (objects (snd (press_all ks app)) ! a)) addrs = texts_before ks app"
    by blast
  then show ?thesis by (metis length_map)
qed

section \<open>The claims\<close>

text \<open>
  C1, as the claim states it, fails in the command-based history. After a copy, the
  clipboard holds the selection and the text is empty. One \<open>PasteCommand\<close> object
  (reference 1) is handed to \<open>execute_command\<close> twice: both executions change the
  text and are recorded, so the history is \<open>[1, 1]\<close>, but the second \<open>save_backup\<close>
  has overwritten the object's one \<open>backup\<close> field. The two calls of \<open>undo\<close> both
  leave the text before the second execution; the empty text before the first is never
  restored.
\<close>

theorem command_executed_twice_counterexample:
  "snd (new_command PasteCommand (snd (button CopyCommand Application_init))) =
     \<lparr>clipboard = ''selected text'', active_editor = \<lparr>editor_text = Some ''''\<rparr>,
      history = [],
      objects = [\<lparr>cls = CopyCommand, backup = None\<rparr>, \<lparr>cls = PasteCommand, backup = None\<rparr>]\<rparr> \<and>
   run [Application_execute_command 1, Application_execute_command 1]
     (snd (new_command PasteCommand (snd (button CopyCommand Application_init)))) =
   (None, \<lparr>clipboard = ''selected text'',
           active_editor = \<lparr>editor_text = Some ''selected textselected text''\<rparr>,
           history = [1, 1],
           objects = [\<lparr>cls = CopyCommand, backup = None\<rparr>,
                      \<lparr>cls = PasteCommand, backup = Some ''selected text''\<rparr>]\<rparr>) \<and>
   calls (Suc (Suc 0)) Application_undo
     (snd (run [Application_execute_command 1, Application_execute_command 1]
        (snd (new_command PasteCommand (snd (button CopyCommand Application_init)))))) =
   [\<lparr>clipboard = ''selected text'', active_editor = \<lparr>editor_text = Some ''selected text''\<rparr>,
     history = [1],
     objects = [\<lparr>cls = CopyCommand, backup = None\<rparr>,
                \<lparr>cls = PasteCommand, backup = Some ''selected text''\<rparr>]\<rparr>,
    \<lparr>clipboard = ''selected text'', active_editor = \<lparr>editor_text = Some ''selected text''\<rparr>,
     history = [],
     objects = [\<lparr>cls = CopyCommand, backup = None\<rparr>,
                \<lparr>cls = PasteCommand, backup = Some ''selected text''\<rparr>]\<rparr>]"
  by (simp add: button_def new_command_def Application_init_def Editor_init_def Command_init_def
      Application_execute_command_def Command_execute_def deref_def CopyCommand_execute_def
      PasteCommand_execute_def get_selection_def Command_save_backup_def on_editor_def
      replace_selection_def CommandHistory_push_def Application_undo_def CommandHistory_pop_def
      Command_undo_def)

text \<open>
  C1, amended. Snapshot-based history: from an originator whose state is \<open>s0\<close>, record
  the mutations \<open>ms\<close> (each a \<open>backup\<close> followed by \<open>do_something\<close>); all of them
  return normally. Then \<open>length ms\<close> calls of \<open>undo\<close> all return normally, and the
  states after them are the states before the last mutation, before the one before it,
  and so on, down to \<open>s0\<close>, the state before the first.

  Command-based history, where each mutation is recorded through a command object of its
  own: from an editor whose text is a string, press the cut and paste buttons \<open>ks\<close>
  (each press builds a new command object, as \<open>create_ui\<close> does); all presses return
  normally and each has a text before it. Then \<open>length ks\<close> calls of
  \<open>Application.undo\<close> all return normally, and the texts after them are the texts before
  the last press, before the one before it, and so on, down to the text before the first.
\<close>

theorem undo_visits_states_in_reverse_order:
  "(originator_state (originator c) = Some s0 \<longrightarrow>
      fst (record_all ms c) = None \<and>
      map (\<lambda>c'. originator_state (originator c'))
          (calls (length ms) Caretaker_undo (snd (record_all ms c))) =
        rev (map Some (butlast (s0 # map snd ms)))) \<and>
   ((\<forall>k \<in> set ks. k = CutCommand \<or> k = PasteCommand) \<and>
    editor_text (active_editor app) = Some t \<longrightarrow>
      fst (press_all ks app) = None \<and>
      length (texts_before ks app) = length ks \<and>
      map (\<lambda>app'. editor_text (active_editor app'))
          (calls (length ks) Application_undo (snd (press_all ks app))) =
        rev (texts_before ks app))"
proof -
  have memento: "fst (record_all ms c) = None \<and>
      map (\<lambda>c'. originator_state (originator c'))
          (calls (length ms) Caretaker_undo (snd (record_all ms c))) =
        rev (map Some (butlast (s0 # map snd ms)))"
    if s0: "originator_state (originator c) = Some s0"
  proof -
    let ?c' = "snd (record_all ms c)"
    from record_all_states [OF s0, of ms] have
      ok: "fst (record_all ms c) = None" and
      hist: "map state (caretaker_history ?c') =
        map state (caretaker_history c) @ butlast (s0 # map snd ms)"
      by simp_all
    have "length (map state (caretaker_history ?c')) =
        length (caretaker_history c) + length ms"
      unfolding hist by simp
    then have len: "length (caretaker_history ?c') = length (caretaker_history c) + length ms"
      by simp
    then have le: "length ms \<le> length (caretaker_history ?c')" by simp
    have "map state (take (length ms) (rev (caretaker_history ?c'))) =
        take (length ms) (rev (map state (caretaker_history ?c')))"
      by (simp add: take_map rev_map)
    also have "\<dots> = rev (butlast (s0 # map snd ms))"
      unfolding hist by simp
    finally have tk: "map state (take (length ms) (rev (caretaker_history ?c'))) =
        rev (butlast (s0 # map snd ms))" .
    have "map (\<lambda>c'. originator_state (originator c')) (calls (length ms) Caretaker_undo ?c') =
        map Some (map state (take (length ms) (rev (caretaker_history ?c'))))"
      using calls_undo_states [OF le] by simp
    then show ?thesis using ok by (simp add: tk rev_map)
  qed
  have command: "fst (press_all ks app) = None \<and>
      length (texts_before ks app) = length ks \<and>
      map (\<lambda>app'. editor_text (active_editor app'))
          (calls (length ks) Application_undo (snd (press_all ks app))) =
        rev (texts_before ks app)"
    if ks: "\<forall>k \<in> set ks. k = CutCommand \<or> k = PasteCommand"
      and t: "editor_text (active_editor app) = Some t"
    using press_all_mutating [OF ks t] texts_before_length [OF ks t] undo_all_presses [OF ks t]
    by simp
  show ?thesis using memento command by blast
qed

theorem undo_visits_states_in_reverse_order_witness:
  "originator_state (originator (Caretaker_init (Originator_init (Some ''A'')))) = Some ''A'' \<and>
   map (\<lambda>c'. originator_state (originator c'))
     (calls (length [(''2026-11-04 09:30:00.250000'', ''B''),
                     (''2026-11-04 09:31:00.500000'', ''C''),
                     (''2026-11-04 09:32:00.750000'', ''D'')]) Caretaker_undo
       (snd (record_all [(''2026-11-04 09:30:00.250000'', ''B''),
                         (''2026-11-04 09:31:00.500000'', ''C''),
                         (''2026-11-04 09:32:00.750000'', ''D'')]
              (Caretaker_init (Originator_init (Some ''A'')))))) =
     [Some ''C'', Some ''B'', Some ''A''] \<and>
   editor_text (active_editor (snd (button CopyCommand Application_init))) = Some '''' \<and>
   texts_before [PasteCommand, PasteCommand, CutCommand]
     (snd (button CopyCommand Application_init)) =
     [Some '''', Some ''selected text'', Some ''selected textselected text''] \<and>
   map (\<lambda>app'. editor_text (active_editor app'))
     (calls (length [PasteCommand, PasteCommand, CutCommand]) Application_undo
       (snd (press_all [PasteCommand, PasteCommand, CutCommand]
              (snd (button CopyCommand Application_init))))) =
     [Some ''selected textselected text'', Some ''selected text'', Some '''']"
proof -
  let ?app = "snd (button CopyCommand Application_init)"
  have app: "?app = \<lparr>clipboard = ''selected text'', active_editor = \<lparr>editor_text = Some ''''\<rparr>,
      history = [], objects = [\<lparr>cls = CopyCommand, backup = None\<rparr>]\<rparr>"
    by (simp add: button_def new_command_def Application_init_def Editor_init_def Command_init_def
        Application_execute_command_def Command_execute_def deref_def CopyCommand_execute_def
        get_selection_def)
  have s: "originator_state (originator (Caretaker_init (Originator_init (Some ''A'')))) = Some ''A''"
    by (simp add: Caretaker_init_def Originator_init_def)
  have t: "editor_text (active_editor ?app) = Some ''''" by (simp add: app)
  have before: "texts_before [PasteCommand, PasteCommand, CutCommand] ?app =
     [Some '''', Some ''selected text'', Some ''selected textselected text'']"
    unfolding app
    by (simp add: button_def new_command_def Command_init_def
        Application_execute_command_def Command_execute_def deref_def PasteCommand_execute_def
        CutCommand_execute_def Command_save_backup_def on_editor_def replace_selection_def
        delete_selection_def get_selection_def CommandHistory_push_def)
  show ?thesis
    using undo_visits_states_in_reverse_order [of "Caretaker_init (Originator_init (Some ''A''))" "''A''"
        "[(''2026-11-04 09:30:00.250000'', ''B''), (''2026-11-04 09:31:00.500000'', ''C''),
          (''2026-11-04 09:32:00.750000'', ''D'')]"
        "[PasteCommand, PasteCommand, CutCommand]" ?app "''''"]
      s t before
    by simp
qed

text \<open>
  C2, as the claim states it, fails: record a mutation from \<open>X\<close> to \<open>Y\<close>, undo it, and
  record a mutation to \<open>Z\<close>. The undone snapshot is still on \<open>restored\<close> after the new
  recording, and a \<open>redo\<close> then puts it back on \<open>_history\<close>, above the new one.
\<close>

theorem redo_after_new_recording_counterexample:
  "run [record_mutation (''2026-11-04 09:30:00.250000'', ''Y''), Caretaker_undo,
        record_mutation (''2026-11-04 09:31:00.500000'', ''Z'')]
     (Caretaker_init (Originator_init (Some ''X''))) =
   (None, \<lparr>caretaker_history = [\<lparr>state = ''X'', date = ''2026-11-04 09:31:00''\<rparr>],
           originator = \<lparr>originator_state = Some ''Z'',
                         restored = [\<lparr>state = ''X'', date = ''2026-11-04 09:30:00''\<rparr>]\<rparr>\<rparr>) \<and>
   run [record_mutation (''2026-11-04 09:30:00.250000'', ''Y''), Caretaker_undo,
        record_mutation (''2026-11-04 09:31:00.500000'', ''Z''), Caretaker_redo]
     (Caretaker_init (Originator_init (Some ''X''))) =
   (None, \<lparr>caretaker_history = [\<lparr>state = ''X'', date = ''2026-11-04 09:31:00''\<rparr>,
                                \<lparr>state = ''X'', date = ''2026-11-04 09:30:00''\<rparr>],
           originator = \<lparr>originator_state = Some ''Z'', restored = []\<rparr>\<rparr>)"
  by (simp add: Caretaker_init_def Originator_init_def record_mutation_Some
      Caretaker_undo_nonempty Caretaker_redo_nonempty Snapshot_init_def)

text \<open>
  C2, amended. \<open>Caretaker.backup\<close> never changes the originator's \<open>restored\<close> list. So
  after an undo and the recording of a new mutation \<open>m\<close>, \<open>redo\<close> still finds the undone
  snapshot: the three calls return normally, the undone snapshot ends on top of
  \<open>_history\<close>, above the new one, \<open>restored\<close> is what it was before the undo, and the
  state is the new mutation's.
\<close>

theorem backup_keeps_restored:
  "restored (originator (snd (Caretaker_backup now c))) = restored (originator c) \<and>
   (caretaker_history c \<noteq> [] \<longrightarrow>
      fst (run [Caretaker_undo, record_mutation m, Caretaker_redo] c) = None \<and>
      caretaker_history (snd (run [Caretaker_undo, record_mutation m, Caretaker_redo] c)) =
        butlast (caretaker_history c) @
          [Snapshot_init (fst m) (state (last (caretaker_history c))), last (caretaker_history c)] \<and>
      restored (originator (snd (run [Caretaker_undo, record_mutation m, Caretaker_redo] c))) =
        restored (originator c) \<and>
      originator_state (originator (snd (run [Caretaker_undo, record_mutation m, Caretaker_redo] c))) =
        Some (snd m))"
proof -
  have "restored (originator (snd (Caretaker_backup now c))) = restored (originator c)"
    by (simp add: Caretaker_backup_def split: sum.splits)
  moreover have "caretaker_history c \<noteq> [] \<Longrightarrow>
      run [Caretaker_undo, record_mutation m, Caretaker_redo] c =
        (None, c\<lparr>caretaker_history := butlast (caretaker_history c) @
                    [Snapshot_init (fst m) (state (last (caretaker_history c))),
                     last (caretaker_history c)],
                  originator := (originator c)\<lparr>originator_state := Some (snd m)\<rparr>\<rparr>)"
    by (simp add: Caretaker_undo_nonempty record_mutation_Some Caretaker_redo_nonempty)
  ultimately show ?thesis by simp
qed

theorem backup_keeps_restored_witness:
  "caretaker_history
     \<lparr>caretaker_history = [\<lparr>state = ''X'', date = ''2026-11-04 09:30:00''\<rparr>],
      originator = \<lparr>originator_state = Some ''Y'', restored = []\<rparr>\<rparr> \<noteq> [] \<and>
   caretaker_history (snd (run [Caretaker_undo,
       record_mutation (''2026-11-04 09:31:00.500000'', ''Z''), Caretaker_redo]
     \<lparr>caretaker_history = [\<lparr>state = ''X'', date = ''2026-11-04 09:30:00''\<rparr>],
      originator = \<lparr>originator_state = Some ''Y'', restored = []\<rparr>\<rparr>)) =
   [\<lparr>state = ''X'', date = ''2026-11-04 09:31:00''\<rparr>,
    \<lparr>state = ''X'', date = ''2026-11-04 09:30:00''\<rparr>]"
  using backup_keeps_restored [of "''''"
      "\<lparr>caretaker_history = [\<lparr>state = ''X'', date = ''2026-11-04 09:30:00''\<rparr>],
        originator = \<lparr>originator_state = Some ''Y'', restored = []\<rparr>\<rparr>"
      "(''2026-11-04 09:31:00.500000'', ''Z'')"]
  by (simp add: Snapshot_init_def)

text \<open>
  C3. The run the claim is about: record one mutation from \<open>X\<close> to \<open>Y\<close>, undo, redo.
  The originator's state after the three steps is \<open>Y\<close>, \<open>X\<close> and again \<open>X\<close>: \<open>redo\<close> does
  not bring back the state the mutation had produced.
\<close>

theorem redo_after_undo_keeps_undone_state:
  "map (\<lambda>script. originator_state (originator (snd (run script
         (Caretaker_init (Originator_init (Some ''X'')))))))
     [[record_mutation (''2026-11-04 09:30:00.250000'', ''Y'')],
      [record_mutation (''2026-11-04 09:30:00.250000'', ''Y''), Caretaker_undo],
      [record_mutation (''2026-11-04 09:30:00.250000'', ''Y''), Caretaker_undo, Caretaker_redo]] =
   [Some ''Y'', Some ''X'', Some ''X'']"
  by (simp add: Caretaker_init_def Originator_init_def record_mutation_Some
      Caretaker_undo_nonempty Caretaker_redo_nonempty Snapshot_init_def)

text \<open>
  C4. \<open>Caretaker.redo\<close> never raises and leaves the originator's \<open>_state\<close> as it was; when
  \<open>restored\<close> is not empty it moves its last snapshot to the end of \<open>_history\<close>.
\<close>

theorem redo_keeps_state:
  "fst (Caretaker_redo c) = None \<and>
   originator_state (originator (snd (Caretaker_redo c))) = originator_state (originator c) \<and>
   (restored (originator c) \<noteq> [] \<longrightarrow>
      caretaker_history (snd (Caretaker_redo c)) =
        caretaker_history c @ [last (restored (originator c))] \<and>
      restored (originator (snd (Caretaker_redo c))) = butlast (restored (originator c)))"
  by (cases "restored (originator c) = []")
    (simp_all add: Caretaker_redo_empty Caretaker_redo_nonempty)

theorem redo_keeps_state_witness:
  "restored (originator
     \<lparr>caretaker_history = [],
      originator = \<lparr>originator_state = Some ''X'',
                    restored = [\<lparr>state = ''X'', date = ''2026-11-04 09:30:00''\<rparr>]\<rparr>\<rparr>) \<noteq> [] \<and>
   Caretaker_redo
     \<lparr>caretaker_history = [],
      originator = \<lparr>originator_state = Some ''X'',
                    restored = [\<lparr>state = ''X'', date = ''2026-11-04 09:30:00''\<rparr>]\<rparr>\<rparr> =
   (None, \<lparr>caretaker_history = [\<lparr>state = ''X'', date = ''2026-11-04 09:30:00''\<rparr>],
           originator = \<lparr>originator_state = Some ''X'', restored = []\<rparr>\<rparr>)"
  using redo_keeps_state [of
      "\<lparr>caretaker_history = [],
        originator = \<lparr>originator_state = Some ''X'',
                      restored = [\<lparr>state = ''X'', date = ''2026-11-04 09:30:00''\<rparr>]\<rparr>\<rparr>"]
  by (simp add: Caretaker_redo_def redo_try_def list_pop_def)

text \<open>
  C5, as the claim states it, fails. After one paste the history holds the paste
  command (reference 0). An \<open>UndoCommand\<close> (reference 1) is an action whose \<open>execute\<close>
  returns \<open>False\<close>, and running it through \<open>execute_command\<close> empties the history.
\<close>

theorem undo_command_changes_history_counterexample:
  "history (snd (new_command UndoCommand (snd (button PasteCommand Application_init)))) = [0] \<and>
   fst (Command_execute 1
     (snd (new_command UndoCommand (snd (button PasteCommand Application_init))))) = Inr False \<and>
   Application_execute_command 1
     (snd (new_command UndoCommand (snd (button PasteCommand Application_init)))) =
   (None, \<lparr>clipboard = '''', active_editor = \<lparr>editor_text = Some ''''\<rparr>, history = [],
           objects = [\<lparr>cls = PasteCommand, backup = Some ''''\<rparr>,
                      \<lparr>cls = UndoCommand, backup = None\<rparr>]\<rparr>)"
  by (simp add: button_def new_command_def Application_init_def Editor_init_def Command_init_def
      Application_execute_command_def Command_execute_def deref_def PasteCommand_execute_def
      UndoCommand_execute_def Command_save_backup_def on_editor_def replace_selection_def
      CommandHistory_push_def Application_undo_def CommandHistory_pop_def Command_undo_def)

text \<open>
  C5, amended. \<open>execute_command\<close> does not push a command whose \<open>execute\<close> returns
  \<open>False\<close>, and it returns normally. Such a command is a \<open>CopyCommand\<close>, and the history
  is then unchanged, or an \<open>UndoCommand\<close>, and the history has then lost its last entry
  (none when it was empty): that is the undo the command carries out. The command example
  has no redo stack.
\<close>

theorem unrecorded_command_is_not_pushed:
  assumes "deref app a = Some obj" and "fst (Command_execute a app) = Inr False"
  shows "fst (Application_execute_command a app) = None \<and>
    history (snd (Application_execute_command a app)) = history (snd (Command_execute a app)) \<and>
    (cls obj = CopyCommand \<and>
       history (snd (Application_execute_command a app)) = history app \<or>
     cls obj = UndoCommand \<and>
       history (snd (Application_execute_command a app)) = butlast (history app))"
proof -
  obtain app1 where ex: "Command_execute a app = (Inr False, app1)"
    using assms(2) by (cases "Command_execute a app") auto
  then have push: "Application_execute_command a app = (None, app1)"
    by (simp add: Application_execute_command_def)
  show ?thesis
  proof (cases "cls obj")
    case CopyCommand
    with ex push Command_execute_Copy [OF assms(1)] show ?thesis by auto
  next
    case UndoCommand
    with ex push Command_execute_Undo [OF assms(1)] Application_undo_returns [of app]
    show ?thesis by auto
  next
    case CutCommand
    show ?thesis
    proof (cases "editor_text (active_editor app)")
      case None
      with Command_execute_no_text [OF assms(1)] CutCommand assms(2) show ?thesis by auto
    next
      case (Some t)
      with Command_execute_Cut [OF assms(1) CutCommand] assms(2) show ?thesis by simp
    qed
  next
    case PasteCommand
    show ?thesis
    proof (cases "editor_text (active_editor app)")
      case None
      with Command_execute_no_text [OF assms(1)] PasteCommand assms(2) show ?thesis by auto
    next
      case (Some t)
      with Command_execute_Paste [OF assms(1) PasteCommand] assms(2) show ?thesis by simp
    qed
  qed
qed

theorem unrecorded_command_is_not_pushed_witness:
  "deref (snd (new_command CopyCommand (snd (button PasteCommand Application_init)))) 1 =
     Some \<lparr>cls = CopyCommand, backup = None\<rparr> \<and>
   fst (Command_execute 1
     (snd (new_command CopyCommand (snd (button PasteCommand Application_init))))) = Inr False \<and>
   history (snd (new_command CopyCommand (snd (button PasteCommand Application_init)))) = [0] \<and>
   history (snd (Application_execute_command 1
     (snd (new_command CopyCommand (snd (button PasteCommand Application_init)))))) = [0]"
proof -
  let ?app = "snd (new_command CopyCommand (snd (button PasteCommand Application_init)))"
  have d: "deref ?app 1 = Some \<lparr>cls = CopyCommand, backup = None\<rparr>"
    by (simp add: button_def new_command_def Application_init_def Editor_init_def Command_init_def
      Application_execute_command_def Command_execute_def deref_def PasteCommand_execute_def
      Command_save_backup_def on_editor_def replace_selection_def CommandHistory_push_def)
  have h: "history ?app = [0]"
    by (simp add: button_def new_command_def Application_init_def Editor_init_def Command_init_def
      Application_execute_command_def Command_execute_def deref_def PasteCommand_execute_def
      Command_save_backup_def on_editor_def replace_selection_def CommandHistory_push_def)
  have e: "fst (Command_execute 1 ?app) = Inr False"
    using Command_execute_Copy [OF d] by simp
  show ?thesis
    using unrecorded_command_is_not_pushed [OF d e] d e h by auto
qed

text \<open>
  C6, as the claim states it, fails. A \<open>CutCommand\<close> (reference 0) on the fresh
  application, whose text is empty: \<open>execute\<close> returns \<open>True\<close>, the editor is as it was,
  and \<open>execute_command\<close> records the command on the history.
\<close>

theorem cut_without_selection_counterexample:
  "fst (Command_execute 0 (snd (new_command CutCommand Application_init))) = Inr True \<and>
   active_editor (snd (Command_execute 0 (snd (new_command CutCommand Application_init)))) =
     active_editor (snd (new_command CutCommand Application_init)) \<and>
   history (snd (new_command CutCommand Application_init)) = [] \<and>
   history (snd (Application_execute_command 0 (snd (new_command CutCommand Application_init)))) = [0]"
  by (simp add: new_command_def Application_init_def Editor_init_def Command_init_def
      Application_execute_command_def Command_execute_def deref_def CutCommand_execute_def
      Command_save_backup_def on_editor_def delete_selection_def get_selection_def
      CommandHistory_push_def)

text \<open>
  C6, amended. What \<open>execute\<close> returns follows from the command's class, not from what
  the call changed. For a copy, cut or paste command, a change of the editor implies that
  \<open>execute\<close> returned \<open>True\<close>. A cut or paste command on an editor whose text is a string
  always returns \<open>True\<close> and is recorded by \<open>execute_command\<close>, also when the text stays
  the same; a copy or undo command always returns \<open>False\<close>.
\<close>

theorem execute_result_follows_class:
  assumes "deref app a = Some obj"
  shows "(cls obj \<noteq> UndoCommand \<and>
          active_editor (snd (Command_execute a app)) \<noteq> active_editor app \<longrightarrow>
            fst (Command_execute a app) = Inr True) \<and>
         ((cls obj = CutCommand \<or> cls obj = PasteCommand) \<and>
          editor_text (active_editor app) \<noteq> None \<longrightarrow>
            fst (Command_execute a app) = Inr True \<and>
            fst (Application_execute_command a app) = None \<and>
            history (snd (Application_execute_command a app)) = history app @ [a]) \<and>
         (cls obj = CopyCommand \<or> cls obj = UndoCommand \<longrightarrow>
            fst (Command_execute a app) = Inr False)"
proof (cases "cls obj")
  case CopyCommand
  with Command_execute_Copy [OF assms] show ?thesis by simp
next
  case UndoCommand
  with Command_execute_Undo [OF assms] show ?thesis by simp
next
  case CutCommand
  show ?thesis
  proof (cases "editor_text (active_editor app)")
    case None
    with Command_execute_no_text [OF assms] CutCommand show ?thesis by auto
  next
    case (Some t)
    with Command_execute_Cut [OF assms CutCommand] CutCommand show ?thesis
      by (simp add: Application_execute_command_def CommandHistory_push_def)
  qed
next
  case PasteCommand
  show ?thesis
  proof (cases "editor_text (active_editor app)")
    case None
    with Command_execute_no_text [OF assms] PasteCommand show ?thesis by auto
  next
    case (Some t)
    with Command_execute_Paste [OF assms PasteCommand] PasteCommand show ?thesis
      by (simp add: Application_execute_command_def CommandHistory_push_def)
  qed
qed

theorem execute_result_follows_class_witness:
  "deref (snd (new_command PasteCommand (snd (button CopyCommand Application_init)))) 1 =
     Some \<lparr>cls = PasteCommand, backup = None\<rparr> \<and>
   editor_text (active_editor
     (snd (new_command PasteCommand (snd (button CopyCommand Application_init))))) = Some '''' \<and>
   editor_text (active_editor (snd (Command_execute 1
     (snd (new_command PasteCommand (snd (button CopyCommand Application_init))))))) =
     Some ''selected text'' \<and>
   fst (Command_execute 1
     (snd (new_command PasteCommand (snd (button CopyCommand Application_init))))) = Inr True \<and>
   history (snd (Application_execute_command 1
     (snd (new_command PasteCommand (snd (button CopyCommand Application_init)))))) = [1] \<and>
   deref (snd (new_command PasteCommand (snd (button CopyCommand Application_init)))) 0 =
     Some \<lparr>cls = CopyCommand, backup = None\<rparr> \<and>
   fst (Command_execute 0
     (snd (new_command PasteCommand (snd (button CopyCommand Application_init))))) = Inr False"
proof -
  let ?app = "snd (new_command PasteCommand (snd (button CopyCommand Application_init)))"
  have app: "?app = \<lparr>clipboard = ''selected text'', active_editor = \<lparr>editor_text = Some ''''\<rparr>,
      history = [], objects = [\<lparr>cls = CopyCommand, backup = None\<rparr>,
                               \<lparr>cls = PasteCommand, backup = None\<rparr>]\<rparr>"
    by (simp add: button_def new_command_def Application_init_def Editor_init_def Command_init_def
        Application_execute_command_def Command_execute_def deref_def CopyCommand_execute_def
        get_selection_def)
  have d: "deref ?app 1 = Some \<lparr>cls = PasteCommand, backup = None\<rparr>"
    by (simp add: app deref_def)
  have t: "editor_text (active_editor (snd (Command_execute 1 ?app))) = Some ''selected text''"
    using Command_execute_Paste [OF d, of "''''"] by (simp add: app)
  have d0: "deref ?app 0 = Some \<lparr>cls = CopyCommand, backup = None\<rparr>"
    by (simp add: app deref_def)
  show ?thesis
    using execute_result_follows_class [OF d] execute_result_follows_class [OF d0] d d0 t
    by (simp add: app)
qed

text \<open>
  C7. On an empty stack, any number \<open>n\<close> of calls in a row all return normally and leave
  the whole state, the subject's included, as it was: \<open>Caretaker.undo\<close> with an empty
  \<open>_history\<close>, \<open>Caretaker.redo\<close> with an empty \<open>restored\<close>, and \<open>Application.undo\<close>
  with an empty command history.
\<close>

theorem empty_stack_calls_change_nothing:
  "(caretaker_history c = [] \<longrightarrow> calls n Caretaker_undo c = replicate n c) \<and>
   (restored (originator c) = [] \<longrightarrow> calls n Caretaker_redo c = replicate n c) \<and>
   (history app = [] \<longrightarrow> calls n Application_undo app = replicate n app)"
  by (simp add: calls_replicate Caretaker_undo_empty Caretaker_redo_empty Application_undo_empty)

theorem empty_stack_calls_change_nothing_witness:
  "caretaker_history (Caretaker_init (Originator_init (Some ''X''))) = [] \<and>
   restored (originator (Caretaker_init (Originator_init (Some ''X'')))) = [] \<and>
   history Application_init = [] \<and>
   calls 3 Caretaker_undo (Caretaker_init (Originator_init (Some ''X''))) =
     replicate 3 (Caretaker_init (Originator_init (Some ''X''))) \<and>
   calls 3 Caretaker_redo (Caretaker_init (Originator_init (Some ''X''))) =
     replicate 3 (Caretaker_init (Originator_init (Some ''X''))) \<and>
   calls 3 Application_undo Application_init = replicate 3 Application_init"
  using empty_stack_calls_change_nothing
    [of "Caretaker_init (Originator_init (Some ''X''))" 3 Application_init]
  by (simp add: Caretaker_init_def Originator_init_def Application_init_def)

text \<open>
  C8. \<open>Originator.save\<close> raises exactly when \<open>_state\<close> is \<open>None\<close> (the exception is
  \<open>AttributeError\<close>); when \<open>_state\<close> is a string it returns a snapshot whose state is
  that string.
\<close>

theorem save_raises_iff_uninitialized:
  "((\<exists>e. Originator_save now orig = Inl e) \<longleftrightarrow> originator_state orig = None) \<and>
   (Originator_save now orig = Inl AttributeError \<longleftrightarrow> originator_state orig = None) \<and>
   (\<forall>s. originator_state orig = Some s \<longrightarrow>
      (\<exists>m. Originator_save now orig = Inr m \<and> state m = s))"
  by (cases "originator_state orig") (simp_all add: Originator_save_def Snapshot_init_def)

theorem save_raises_iff_uninitialized_witness:
  "originator_state (Originator_init (Some ''X'')) = Some ''X'' \<and>
   Originator_save ''2026-11-04 09:30:00.250000'' (Originator_init (Some ''X'')) =
     Inr \<lparr>state = ''X'', date = ''2026-11-04 09:30:00''\<rparr> \<and>
   Originator_save ''2026-11-04 09:30:00.250000'' (Originator_init None) = Inl AttributeError"
  using save_raises_iff_uninitialized [of "''2026-11-04 09:30:00.250000''" "Originator_init (Some ''X'')"]
    save_raises_iff_uninitialized [of "''2026-11-04 09:30:00.250000''" "Originator_init None"]
  by (simp add: Originator_init_def Originator_save_def Snapshot_init_def)

text \<open>
  C9, as the claim states it, fails. Take a caretaker with one snapshot on \<open>_history\<close> and
  an originator whose \<open>restore\<close> raises \<open>TypeError\<close>: the \<open>try\<close> block of \<open>undo\<close> ends
  with that exception, the snapshot already popped, and \<open>undo\<close> itself returns normally.
\<close>

theorem undo_swallows_restore_error_counterexample:
  "undo_try (raising_restore TypeError)
     \<lparr>caretaker_history = [\<lparr>state = ''X'', date = ''2026-11-04 09:30:00''\<rparr>],
      originator = \<lparr>originator_state = Some ''Y'', restored = []\<rparr>\<rparr> =
   (Some TypeError,
    \<lparr>caretaker_history = [], originator = \<lparr>originator_state = Some ''Y'', restored = []\<rparr>\<rparr>) \<and>
   Caretaker_undo_with (raising_restore TypeError)
     \<lparr>caretaker_history = [\<lparr>state = ''X'', date = ''2026-11-04 09:30:00''\<rparr>],
      originator = \<lparr>originator_state = Some ''Y'', restored = []\<rparr>\<rparr> =
   (None,
    \<lparr>caretaker_history = [], originator = \<lparr>originator_state = Some ''Y'', restored = []\<rparr>\<rparr>)"
  by (simp add: Caretaker_undo_with_def undo_try_def list_pop_def on_originator_def
      raising_restore_def)

text \<open>
  C9, amended. An error of the capture leaves \<open>Caretaker.backup\<close> unchanged and with
  nothing stored: \<open>backup\<close> raises \<open>e\<close> exactly when \<open>save\<close> does, and the caretaker is
  then as before. \<open>Caretaker.undo\<close>, whatever the \<open>restore\<close> method it calls does, and
  \<open>Caretaker.redo\<close> always return normally: their handlers end every exception.
\<close>

theorem capture_errors_propagate_restore_errors_end_in_undo:
  "(fst (Caretaker_backup now c) = Some e \<longleftrightarrow> Originator_save now (originator c) = Inl e) \<and>
   (Caretaker_backup now c = (Some e, c) \<longleftrightarrow> Originator_save now (originator c) = Inl e) \<and>
   fst (Caretaker_undo_with rst c) = None \<and>
   fst (Caretaker_undo c) = None \<and>
   fst (Caretaker_redo c) = None"
proof -
  have undo: "fst (Caretaker_undo_with r c) = None" for r
    by (simp add: Caretaker_undo_with_def split: prod.splits option.splits)
  have redo: "fst (Caretaker_redo c) = None"
    by (simp add: Caretaker_redo_def split: prod.splits option.splits)
  have backup: "(fst (Caretaker_backup now c) = Some e \<longleftrightarrow> Originator_save now (originator c) = Inl e) \<and>
      (Caretaker_backup now c = (Some e, c) \<longleftrightarrow> Originator_save now (originator c) = Inl e)"
    by (cases "Originator_save now (originator c)") (auto simp: Caretaker_backup_def)
  show ?thesis using undo redo backup by (simp add: Caretaker_undo_def)
qed

text \<open>
  C10. In every state the application can reach, each reference on the history is a
  command object of class \<open>CutCommand\<close> or \<open>PasteCommand\<close> whose \<open>backup\<close> is a string,
  and the editor's text is a string; \<open>Application.undo\<close> then returns normally and
  leaves the editor's text a string.
\<close>

theorem history_commands_have_backups:
  assumes "reachable app"
  shows "(\<forall>a \<in> set (history app). \<exists>obj t. deref app a = Some obj \<and> backup obj = Some t \<and>
            (cls obj = CutCommand \<or> cls obj = PasteCommand)) \<and>
         (\<exists>t. editor_text (active_editor app) = Some t) \<and>
         fst (Application_undo app) = None \<and>
         (\<exists>t. editor_text (active_editor (snd (Application_undo app))) = Some t)"
proof -
  have inv: "backed_up app" using assms by (rule reachable_backed_up)
  have after: "fst (Application_undo app) = None" "backed_up (snd (Application_undo app))"
    using backed_up_undo [OF inv] by simp_all
  show ?thesis
    using inv after by (auto simp: backed_up_def deref_def)
qed

theorem history_commands_have_backups_witness:
  "reachable (snd (create_ui Application_init)) \<and>
   history (snd (create_ui Application_init)) = [1] \<and>
   deref (snd (create_ui Application_init)) 1 = Some \<lparr>cls = CutCommand, backup = Some ''''\<rparr> \<and>
   editor_text (active_editor (snd (Application_undo (snd (create_ui Application_init))))) =
     Some ''''"
proof -
  have r: "reachable (snd (create_ui Application_init))"
    unfolding create_ui_def by (rule reachable_press_all) (rule reachable.fresh)
  have u: "editor_text (active_editor (snd (Application_undo (snd (create_ui Application_init))))) =
     Some ''''"
    by (simp add: create_ui_fresh Application_undo_def CommandHistory_pop_def deref_def
        Command_undo_def)
  show ?thesis
    using history_commands_have_backups [OF r] r u by (simp add: create_ui_fresh deref_def)
qed

end
